theory Spec2Isabelle
  imports Complex_Main
begin

section \<open>Python values used by the two servers\<close>

text \<open>
  A Python \<^verbatim>\<open>str\<close> is a sequence of Unicode code points, so a string of the program is a
  list of code points. Keys of dictionaries and of JSON objects are the ASCII literals of
  the source and stay HOL strings; \<open>ustr\<close> turns such a literal into a Python string.

  A Python \<^verbatim>\<open>float\<close> is modelled by the rational number it denotes: every finite double is
  a rational, NaN and the infinities are left out, and the last conversion of a computed
  value to the nearest double is not modelled.
\<close>

type_synonym pystr = "nat list"

definition ustr :: "string \<Rightarrow> pystr" where
  "ustr s = map (\<lambda>c. of_char c) s"

text \<open>\<^verbatim>\<open>str.isspace\<close> on one code point: the table of CPython's \<^verbatim>\<open>_PyUnicode_IsWhitespace\<close>.\<close>

definition isspace :: "nat \<Rightarrow> bool" where
  "isspace c = ((9 \<le> c \<and> c \<le> 13) \<or> (28 \<le> c \<and> c \<le> 32) \<or> c = 133 \<or> c = 160 \<or>
     c = 5760 \<or> (8192 \<le> c \<and> c \<le> 8202) \<or> c = 8232 \<or> c = 8233 \<or> c = 8239 \<or>
     c = 8287 \<or> c = 12288)"

text \<open>\<^verbatim>\<open>s.strip()\<close>: leading and trailing whitespace removed.\<close>

definition strip :: "pystr \<Rightarrow> pystr" where
  "strip s = rev (dropWhile isspace (rev (dropWhile isspace s)))"

text \<open>
  \<^verbatim>\<open>s.split()\<close> with no separator: the maximal runs of non-whitespace, in order. \<open>cur\<close> is
  the run being read.
\<close>

fun split_acc :: "pystr \<Rightarrow> pystr \<Rightarrow> pystr list" where
  "split_acc cur [] = (if cur = [] then [] else [cur])"
| "split_acc cur (c # cs) =
     (if isspace c then (if cur = [] then split_acc [] cs else cur # split_acc [] cs)
      else split_acc (cur @ [c]) cs)"

definition split :: "pystr \<Rightarrow> pystr list" where
  "split s = split_acc [] s"

text \<open>\<^verbatim>\<open>sep.join(parts)\<close>.\<close>

fun join :: "pystr \<Rightarrow> pystr list \<Rightarrow> pystr" where
  "join sep [] = []"
| "join sep [x] = x"
| "join sep (x # y # ys) = x @ sep @ join sep (y # ys)"

text \<open>
  \<^verbatim>\<open>round(x, ndigits)\<close> on a float: CPython rounds the exact value of the double to
  \<open>ndigits\<close> decimals, a tie going to the even neighbour.
\<close>

definition round_half_even :: "rat \<Rightarrow> int" where
  "round_half_even x =
     (let f = \<lfloor>x\<rfloor>; d = x - of_int f
      in if d < 1 / 2 then f else if 1 / 2 < d then f + 1 else if even f then f else f + 1)"

definition round_py :: "rat \<Rightarrow> nat \<Rightarrow> rat" where
  "round_py x ndigits = of_int (round_half_even (x * 10 ^ ndigits)) / 10 ^ ndigits"

text \<open>What \<^verbatim>\<open>jsonify\<close> serialises, and what the simple backend's result dictionary holds.\<close>

datatype json =
    JNull
  | JBool bool
  | JNum rat
  | JStr pystr
  | JArr "json list"
  | JObj "(string \<times> json) list"

text \<open>
  An exception, as far as the handlers look at it: \<^verbatim>\<open>str(e)\<close> is all they use.
  \<open>KeyError k\<close> is a missing dictionary key, \<open>AttributeError t a\<close> a missing attribute
  \<open>a\<close> on a value of type \<open>t\<close>, \<open>Raised m\<close> any other exception with message \<open>m\<close>.
\<close>

datatype exn = KeyError string | AttributeError string string | Raised pystr

definition str_exn :: "exn \<Rightarrow> pystr" where
  "str_exn e =
     (case e of
        KeyError k \<Rightarrow> [39] @ ustr k @ [39]
      | AttributeError t a \<Rightarrow>
          [39] @ ustr t @ [39] @ ustr '' object has no attribute '' @ [39] @ ustr a @ [39]
      | Raised m \<Rightarrow> m)"

fun type_name :: "json \<Rightarrow> string" where
  "type_name JNull = ''NoneType''"
| "type_name (JBool b) = ''bool''"
| "type_name (JNum x) = ''float''"
| "type_name (JStr s) = ''str''"
| "type_name (JArr xs) = ''list''"
| "type_name (JObj kvs) = ''dict''"

section \<open>The request\<close>

text \<open>
  What a handler reads of the Flask request: the uploaded files by field name and the query
  parameters. Saving the upload to a temporary file and removing it again are taken to
  succeed; the backend then sees the upload's bytes.
\<close>

record upload =
  filename :: pystr
  content :: "nat list"

record request =
  files :: "string \<rightharpoonup> upload"
  args :: "string \<rightharpoonup> pystr"

text \<open>\<^verbatim>\<open>request.args.get('language', 'ar')\<close>, the same line in both handlers.\<close>

definition language_hint :: "request \<Rightarrow> pystr" where
  "language_hint req = (case args req ''language'' of None \<Rightarrow> ustr ''ar'' | Some l \<Rightarrow> l)"

text \<open>What a client reads of a response: the member of a JSON object under a key.\<close>

definition field :: "string \<Rightarrow> json \<Rightarrow> json option" where
  "field k j = (case j of JObj kvs \<Rightarrow> map_of kvs k | _ \<Rightarrow> None)"

section \<open>whisper\_server\_fast.py\<close>

text \<open>
  A word of faster-whisper (\<^verbatim>\<open>word\<close>, \<^verbatim>\<open>start\<close>, \<^verbatim>\<open>end\<close>, \<^verbatim>\<open>probability\<close>). The dictionaries
  the handler appends to \<^verbatim>\<open>words_data\<close> have the same four keys, so they are values of the
  same record; \<open>jsonify_word\<close> is the JSON object \<^verbatim>\<open>jsonify\<close> writes for one. The fields
  of a \<open>Word\<close> have the types faster-whisper declares (a string and three floats).
\<close>

record Word =
  word :: pystr
  start :: rat
  end_time :: rat
  probability :: rat

text \<open>
  An element of \<^verbatim>\<open>list(segment.words)\<close> as the loop of lines 106--117 meets it. The handler
  does not check what the backend hands over, and the \<^verbatim>\<open>try\<close> of line 100 encloses the loop:
  \<open>Readable w\<close> is an object with the four fields of a word, \<open>Broken e\<close> is an object at
  which lines 107--113 raise \<open>e\<close> (its \<^verbatim>\<open>word\<close> has no \<^verbatim>\<open>strip\<close>, or its word is not blank and
  \<^verbatim>\<open>round\<close> rejects its \<^verbatim>\<open>start\<close>, \<^verbatim>\<open>end\<close> or \<^verbatim>\<open>probability\<close>). Both raise before the word is
  appended.
\<close>

datatype word_obj = Readable Word | Broken exn

text \<open>
  What \<^verbatim>\<open>segment.words\<close> can be: the attribute is missing (\<^verbatim>\<open>hasattr\<close> is false), it is
  \<^verbatim>\<open>None\<close>, \<^verbatim>\<open>list(segment.words)\<close> gives a list, or \<^verbatim>\<open>list(segment.words)\<close> raises (a value
  that cannot be iterated, a generator that fails).
\<close>

datatype words_value = NoAttribute | IsNone | Iterable "word_obj list" | Unreadable exn

record segment =
  text_attr :: pystr
  words_attr :: words_value

record transcription_info =
  language :: pystr
  language_probability :: rat

text \<open>
  The loaded model: \<^verbatim>\<open>model.transcribe(tmp_path, language=language, ...)\<close> followed by
  \<^verbatim>\<open>list(segments)\<close>, either of which may raise. The global \<^verbatim>\<open>model\<close> is \<^verbatim>\<open>None\<close> until
  \<^verbatim>\<open>load_model\<close> has run.
\<close>

type_synonym fast_model = "nat list \<Rightarrow> pystr \<Rightarrow> exn + (segment list \<times> transcription_info)"

definition call_fast :: "fast_model option \<Rightarrow> nat list \<Rightarrow> pystr \<Rightarrow> exn + (segment list \<times> transcription_info)" where
  "call_fast model audio lang =
     (case model of
        None \<Rightarrow> Inl (AttributeError ''NoneType'' ''transcribe'')
      | Some m \<Rightarrow> m audio lang)"

text \<open>
  Lines 106--117: the loop over \<^verbatim>\<open>words_list\<close>. The state is \<^verbatim>\<open>(words_data, full_text_parts)\<close>,
  two lists the loop appends to in place: when an element raises, the loop stops and the
  handler of line 121 finds the lists as they are then. The result is that state and the
  exception, if one was raised.
\<close>

fun word_loop ::
  "word_obj list \<Rightarrow> Word list \<times> pystr list \<Rightarrow> (Word list \<times> pystr list) \<times> exn option" where
  "word_loop [] st = (st, None)"
| "word_loop (Broken e # rest) st = (st, Some e)"
| "word_loop (Readable word_info # rest) st =
     (let word_text = strip (word word_info)
      in if word_text \<noteq> []
         then word_loop rest
                (fst st @
                   [\<lparr>word = word_text,
                     start = round_py (start word_info) 2,
                     end_time = round_py (end_time word_info) 2,
                     probability = round_py (probability word_info) 3\<rparr>],
                 snd st @ [word_text])
         else word_loop rest st)"

text \<open>
  Lines 92--128: the body of the loop over \<^verbatim>\<open>segments_list\<close>. The \<^verbatim>\<open>except\<close> of lines 121--123
  is reached from \<^verbatim>\<open>list(segment.words)\<close> and from the loop over the words.
\<close>

definition segment_body :: "segment \<Rightarrow> Word list \<times> pystr list \<Rightarrow> Word list \<times> pystr list" where
  "segment_body seg st =
     (let segment_text = strip (text_attr seg)
      in case words_attr seg of
           Iterable words_list \<Rightarrow>
             (if words_list \<noteq> []
              then (let (st', raised) = word_loop words_list st
                    in case raised of
                         None \<Rightarrow> st'
                       | Some e \<Rightarrow> (fst st', snd st' @ [segment_text]))
              else (fst st, snd st @ [segment_text]))
         | Unreadable e \<Rightarrow> (fst st, snd st @ [segment_text])
         | NoAttribute \<Rightarrow> (if segment_text \<noteq> [] then (fst st, snd st @ [segment_text]) else st)
         | IsNone \<Rightarrow> (if segment_text \<noteq> [] then (fst st, snd st @ [segment_text]) else st))"

fun segment_loop :: "segment list \<Rightarrow> Word list \<times> pystr list \<Rightarrow> Word list \<times> pystr list" where
  "segment_loop [] st = st"
| "segment_loop (seg # rest) st = segment_loop rest (segment_body seg st)"

text \<open>
  Lines 142--149: the loop over \<^verbatim>\<open>enumerate(words)\<close> of the fallback. Python's
  \<^verbatim>\<open>enumerate\<close> is \<^const>\<open>enumerate\<close> from 0.
\<close>

fun fallback_loop :: "(nat \<times> pystr) list \<Rightarrow> Word list \<Rightarrow> Word list" where
  "fallback_loop [] words_data = words_data"
| "fallback_loop ((i, w) # rest) words_data =
     (if strip w \<noteq> []
      then fallback_loop rest
             (words_data @
                [\<lparr>word = strip w,
                  start = round_py (of_nat i * (1 / 2)) 2,
                  end_time = round_py ((of_nat i + 1) * (1 / 2)) 2,
                  probability = 3 / 4\<rparr>])
      else fallback_loop rest words_data)"

text \<open>Lines 84--149: from the backend's segments to \<^verbatim>\<open>(words_data, full_text)\<close>.\<close>

definition full_text_of :: "segment list \<Rightarrow> pystr" where
  "full_text_of segments_list = join (ustr '' '') (snd (segment_loop segments_list ([], [])))"

definition words_of :: "segment list \<Rightarrow> Word list" where
  "words_of segments_list =
     (let words_data = fst (segment_loop segments_list ([], []));
          full_text = full_text_of segments_list
      in if words_data = [] \<and> full_text \<noteq> []
         then fallback_loop (enumerate 0 (split full_text)) words_data
         else words_data)"

definition jsonify_word :: "Word \<Rightarrow> json" where
  "jsonify_word w =
     JObj [(''word'', JStr (word w)), (''start'', JNum (start w)),
           (''end'', JNum (end_time w)), (''probability'', JNum (probability w))]"

definition error_body :: "pystr \<Rightarrow> json" where
  "error_body msg = JObj [(''error'', JStr msg)]"

text \<open>The handler of \<^verbatim>\<open>/inference\<close>: the JSON body and the HTTP status.\<close>

definition transcribe_fast :: "fast_model option \<Rightarrow> request \<Rightarrow> json \<times> nat" where
  "transcribe_fast model req =
     (case files req ''file'' of
        None \<Rightarrow> (error_body (ustr ''No file provided''), 400)
      | Some audio_file \<Rightarrow>
          (if filename audio_file = [] then (error_body (ustr ''No file selected''), 400)
           else
            let lang = language_hint req
            in (case call_fast model (content audio_file) lang of
                  Inl e \<Rightarrow> (error_body (str_exn e), 500)
                | Inr (segments_list, info) \<Rightarrow>
                    (let words_data = words_of segments_list
                     in (JObj [(''text'', JStr (full_text_of segments_list)),
                               (''language'', JStr (language info)),
                               (''language_probability'', JNum (language_probability info)),
                               (''words'', JArr (map jsonify_word words_data)),
                               (''total_duration'',
                                  JNum (if words_data \<noteq> [] then end_time (last words_data)
                                        else 0))],
                         200)))))"

section \<open>whisper\_server\_simple.py\<close>

text \<open>The loaded OpenAI Whisper model: \<^verbatim>\<open>model.transcribe\<close> returns a dictionary or raises.\<close>

type_synonym simple_model = "nat list \<Rightarrow> pystr \<Rightarrow> exn + (string \<rightharpoonup> json)"

definition call_simple :: "simple_model option \<Rightarrow> nat list \<Rightarrow> pystr \<Rightarrow> exn + (string \<rightharpoonup> json)" where
  "call_simple model audio lang =
     (case model of
        None \<Rightarrow> Inl (AttributeError ''NoneType'' ''transcribe'')
      | Some m \<Rightarrow> m audio lang)"

text \<open>\<^verbatim>\<open>result["text"].strip()\<close>: the key may be missing, the value may have no \<^verbatim>\<open>strip\<close>.\<close>

definition result_text :: "(string \<rightharpoonup> json) \<Rightarrow> exn + pystr" where
  "result_text result =
     (case result ''text'' of
        None \<Rightarrow> Inl (KeyError ''text'')
      | Some (JStr s) \<Rightarrow> Inr (strip s)
      | Some v \<Rightarrow> Inl (AttributeError (type_name v) ''strip''))"

definition transcribe_simple :: "simple_model option \<Rightarrow> request \<Rightarrow> json \<times> nat" where
  "transcribe_simple model req =
     (case files req ''file'' of
        None \<Rightarrow> (error_body (ustr ''No file provided''), 400)
      | Some audio_file \<Rightarrow>
          (if filename audio_file = [] then (error_body (ustr ''No file selected''), 400)
           else
            let lang = language_hint req
            in (case call_simple model (content audio_file) lang of
                  Inl e \<Rightarrow> (error_body (str_exn e), 500)
                | Inr result \<Rightarrow>
                    (case result_text result of
                       Inl e \<Rightarrow> (error_body (str_exn e), 500)
                     | Inr t \<Rightarrow>
                         (JObj [(''text'', JStr t),
                                (''language'',
                                   (case result ''language'' of None \<Rightarrow> JStr lang | Some v \<Rightarrow> v)),
                                (''language_probability'', JNum 1)],
                          200)))))"

section \<open>The specification's vocabulary\<close>

text \<open>
  The next definitions follow the words of the specification, not the source: they are what
  the handler's loops are compared with. \<open>spec_read\<close> is the part of a word list that can
  be read, the words before the first broken element (all of them when none is broken),
  \<open>spec_spans\<close> is the word sequence a segment exposes in this sense (none when the
  attribute is missing, \<^verbatim>\<open>None\<close> or cannot be listed), \<open>spec_accepted\<close> says
  that a span's trimmed word is non-empty, \<open>spec_emit\<close> is an accepted span as it is
  emitted (trimmed, times rounded to 2 decimals, probability to 3), \<open>spec_extract\<close> the Word
  Extractor's list, \<open>spec_synthesize\<close> the Fallback Synthesizer's list for the tokens of a
  text.
\<close>

fun spec_read :: "word_obj list \<Rightarrow> Word list" where
  "spec_read [] = []"
| "spec_read (Broken e # rest) = []"
| "spec_read (Readable w # rest) = w # spec_read rest"

definition spec_spans :: "segment \<Rightarrow> Word list" where
  "spec_spans seg = (case words_attr seg of Iterable ws \<Rightarrow> spec_read ws | _ \<Rightarrow> [])"

definition spec_accepted :: "Word \<Rightarrow> bool" where
  "spec_accepted w = (strip (word w) \<noteq> [])"

definition spec_emit :: "Word \<Rightarrow> Word" where
  "spec_emit w =
     \<lparr>word = strip (word w), start = round_py (start w) 2,
      end_time = round_py (end_time w) 2, probability = round_py (probability w) 3\<rparr>"

definition spec_extract :: "segment list \<Rightarrow> Word list" where
  "spec_extract segs = map spec_emit (filter spec_accepted (concat (map spec_spans segs)))"

definition spec_synthesize :: "pystr list \<Rightarrow> Word list" where
  "spec_synthesize tokens =
     map (\<lambda>(i, t). \<lparr>word = t, start = of_nat i * (1 / 2),
                      end_time = (of_nat i + 1) * (1 / 2), probability = 3 / 4\<rparr>)
       (enumerate 0 tokens)"

text \<open>A text that is trimmed and not empty: it neither starts nor ends with whitespace.\<close>

definition spec_trimmed :: "pystr \<Rightarrow> bool" where
  "spec_trimmed p = (p \<noteq> [] \<and> \<not> isspace (hd p) \<and> \<not> isspace (last p))"

section \<open>Inputs of the examples\<close>

text \<open>
  A request that uploads a file and gives no language, and a loaded model that returns the
  given segments for every upload.
\<close>

abbreviation (input) example_request :: request where
  "example_request \<equiv>
     \<lparr>files = [''file'' \<mapsto> \<lparr>filename = ustr ''a.flac'', content = []\<rparr>], args = Map.empty\<rparr>"

abbreviation (input) example_info :: transcription_info where
  "example_info \<equiv> \<lparr>language = ustr ''en'', language_probability = 1\<rparr>"

abbreviation (input) returning :: "segment list \<Rightarrow> fast_model option" where
  "returning segs \<equiv> Some (\<lambda>audio lang. Inr (segs, example_info))"

abbreviation (input) simple_returning :: "(string \<rightharpoonup> json) \<Rightarrow> simple_model option" where
  "simple_returning result \<equiv> Some (\<lambda>audio lang. Inr result)"

section \<open>Facts about the string functions\<close>

lemma dropWhile_none: "\<forall>c \<in> set t. \<not> P c \<Longrightarrow> dropWhile P t = t"
  by (cases t) auto

lemma strip_no_space: "\<forall>c \<in> set t. \<not> isspace c \<Longrightarrow> strip t = t"
  by (simp add: strip_def dropWhile_none)

lemma split_acc_tokens:
  "\<forall>c \<in> set cur. \<not> isspace c \<Longrightarrow> t \<in> set (split_acc cur s) \<Longrightarrow>
     t \<noteq> [] \<and> (\<forall>c \<in> set t. \<not> isspace c)"
proof (induction s arbitrary: cur)
  case Nil
  then show ?case by (auto split: if_splits)
next
  case (Cons a s)
  show ?case
  proof (cases "isspace a")
    case True
    with Cons.prems(2) have "(t = cur \<and> cur \<noteq> []) \<or> t \<in> set (split_acc [] s)"
      by (auto split: if_splits)
    then show ?thesis using Cons.IH [of "[]"] Cons.prems(1) by auto
  next
    case False
    then have "t \<in> set (split_acc (cur @ [a]) s)" using Cons.prems(2) by simp
    moreover have "\<forall>c \<in> set (cur @ [a]). \<not> isspace c" using False Cons.prems(1) by simp
    ultimately show ?thesis using Cons.IH by blast
  qed
qed

lemma split_token_strip: "t \<in> set (split s) \<Longrightarrow> strip t = t \<and> t \<noteq> []"
  using split_acc_tokens [of "[]" t s] by (simp add: split_def strip_no_space)

lemma snd_enumerate: "(i, t) \<in> set (enumerate k xs) \<Longrightarrow> t \<in> set xs"
  by (auto simp: in_set_enumerate_eq)

section \<open>Facts about rounding\<close>

lemma round_half_even_of_int: "round_half_even (of_int k) = k"
  by (simp add: round_half_even_def)

lemma round_py_half: "round_py (of_nat i / 2) 2 = of_nat i / 2"
proof -
  have "(of_nat i / 2) * 10 ^ 2 = (of_int (int i * 50) :: rat)" by simp
  then show ?thesis unfolding round_py_def by (simp only: round_half_even_of_int) simp
qed

lemma round_py_half_Suc: "round_py ((of_nat i + 1) / 2) 2 = (of_nat i + 1) / 2"
proof -
  have "((of_nat i + 1) / 2) * 10 ^ 2 = (of_int ((int i + 1) * 50) :: rat)" by simp
  then show ?thesis unfolding round_py_def by (simp only: round_half_even_of_int) simp
qed

lemma round_half_even_mono: "x \<le> y \<Longrightarrow> round_half_even x \<le> round_half_even y"
proof -
  assume xy: "x \<le> y"
  have fl: "\<lfloor>x\<rfloor> \<le> \<lfloor>y\<rfloor>" using xy by (rule floor_mono)
  have lo: "\<lfloor>y\<rfloor> \<le> round_half_even y" by (simp add: round_half_even_def Let_def)
  have hi: "round_half_even x \<le> \<lfloor>x\<rfloor> + 1" by (simp add: round_half_even_def Let_def)
  show ?thesis
  proof (cases "\<lfloor>x\<rfloor> = \<lfloor>y\<rfloor>")
    case False
    with fl have "\<lfloor>x\<rfloor> + 1 \<le> \<lfloor>y\<rfloor>" by simp
    with lo hi show ?thesis by linarith
  next
    case True
    with xy have "x - of_int \<lfloor>x\<rfloor> \<le> y - of_int \<lfloor>y\<rfloor>" by simp
    with True show ?thesis by (auto simp: round_half_even_def Let_def)
  qed
qed

lemma round_py_mono: "x \<le> y \<Longrightarrow> round_py x n \<le> round_py y n"
proof -
  assume "x \<le> y"
  then have "x * 10 ^ n \<le> y * 10 ^ n" by (simp add: mult_right_mono)
  then have "round_half_even (x * 10 ^ n) \<le> round_half_even (y * 10 ^ n)"
    by (rule round_half_even_mono)
  then show ?thesis by (simp add: round_py_def divide_right_mono)
qed

lemma round_half_even_close: "\<bar>of_int (round_half_even x) - x\<bar> \<le> 1 / 2"
proof -
  have "of_int \<lfloor>x\<rfloor> \<le> x" "x < of_int \<lfloor>x\<rfloor> + 1" by linarith+
  then show ?thesis by (auto simp: round_half_even_def Let_def abs_le_iff)
qed

lemma round_py_decimals: "round_py x n * 10 ^ n = of_int (round_half_even (x * 10 ^ n))"
  by (simp add: round_py_def)

lemma round_py_close: "\<bar>round_py x n - x\<bar> \<le> 1 / (2 * 10 ^ n)"
proof -
  have "round_py x n - x = (of_int (round_half_even (x * 10 ^ n)) - x * 10 ^ n) / 10 ^ n"
    by (simp add: round_py_def diff_divide_distrib)
  then have "\<bar>round_py x n - x\<bar> = \<bar>of_int (round_half_even (x * 10 ^ n)) - x * 10 ^ n\<bar> / 10 ^ n"
    by (simp only: abs_divide) simp
  also have "\<dots> \<le> (1 / 2) / 10 ^ n"
    using round_half_even_close [of "x * 10 ^ n"] by (simp only: divide_right_mono zero_le_power zero_le_numeral)
  finally show ?thesis by simp
qed

lemma round_py_has_decimals:
  "\<exists>k. round_py x 2 * 100 = of_int k" "\<exists>k. round_py x 3 * 1000 = of_int k"
  by (simp_all add: round_py_def)

section \<open>The loops of the fast handler in closed form\<close>

lemma spec_read_readable: "spec_read (map Readable ws) = ws"
  by (induction ws) simp_all

lemma spec_spans_readable: "words_attr seg = Iterable (map Readable ws) \<Longrightarrow> spec_spans seg = ws"
  by (simp add: spec_spans_def spec_read_readable)

lemma word_loop_eq:
  "fst (word_loop ws st) =
     (fst st @ map spec_emit (filter spec_accepted (spec_read ws)),
      snd st @ map (\<lambda>w. strip (word w)) (filter spec_accepted (spec_read ws)))"
  by (induction ws st rule: word_loop.induct)
     (simp_all add: Let_def spec_emit_def spec_accepted_def)

lemma word_loop_no_broken: "\<forall>e. Broken e \<notin> set ws \<Longrightarrow> snd (word_loop ws st) = None"
  by (induction ws st rule: word_loop.induct) (auto simp: Let_def)

lemma fst_segment_body:
  "fst (segment_body seg st) = fst st @ map spec_emit (filter spec_accepted (spec_spans seg))"
  by (cases "words_attr seg")
     (simp_all add: segment_body_def spec_spans_def word_loop_eq Let_def case_prod_beta
               split: option.splits)

lemma fst_segment_loop:
  "fst (segment_loop segs st) = fst st @ spec_extract segs"
proof (induction segs arbitrary: st)
  case Nil
  show ?case by (simp add: spec_extract_def)
next
  case (Cons seg segs)
  show ?case by (simp add: Cons.IH fst_segment_body spec_extract_def)
qed

lemma segment_loop_append:
  "segment_loop (xs @ ys) st = segment_loop ys (segment_loop xs st)"
  by (induction xs arbitrary: st) simp_all

lemma fallback_loop_eq:
  "\<forall>(i, t) \<in> set its. strip t = t \<and> t \<noteq> [] \<Longrightarrow>
   fallback_loop its wd =
     wd @ map (\<lambda>(i, t). \<lparr>word = t, start = of_nat i * (1 / 2),
                          end_time = (of_nat i + 1) * (1 / 2), probability = 3 / 4\<rparr>) its"
  by (induction its wd rule: fallback_loop.induct)
     (simp_all add: round_py_half round_py_half_Suc)

lemma fallback_loop_split:
  "fallback_loop (enumerate 0 (split s)) [] = spec_synthesize (split s)"
proof -
  have "\<forall>(i, t) \<in> set (enumerate 0 (split s)). strip t = t \<and> t \<noteq> []"
    using split_token_strip snd_enumerate by fastforce
  then show ?thesis by (simp add: fallback_loop_eq spec_synthesize_def)
qed

lemma words_of_eq:
  "words_of segs =
     (if spec_extract segs = [] \<and> full_text_of segs \<noteq> []
      then spec_synthesize (split (full_text_of segs)) else spec_extract segs)"
  by (simp add: words_of_def Let_def fst_segment_loop fallback_loop_split)

lemma spec_synthesize_index:
  "spec_synthesize toks =
     map (\<lambda>i. \<lparr>word = toks ! i, start = of_nat i * (1 / 2),
                  end_time = (of_nat i + 1) * (1 / 2), probability = 3 / 4\<rparr>)
       [0..<length toks]"
  by (rule nth_equalityI) (simp_all add: spec_synthesize_def nth_enumerate_eq)

section \<open>The handlers on a request that reaches the backend\<close>

lemma transcribe_fast_ok:
  assumes "files req ''file'' = Some f" and "filename f \<noteq> []"
    and "m (content f) (language_hint req) = Inr (segs, info)"
  shows "transcribe_fast (Some m) req =
     (JObj [(''text'', JStr (full_text_of segs)),
            (''language'', JStr (language info)),
            (''language_probability'', JNum (language_probability info)),
            (''words'', JArr (map jsonify_word (words_of segs))),
            (''total_duration'',
               JNum (if words_of segs \<noteq> [] then end_time (last (words_of segs)) else 0))],
      200)"
  using assms by (simp add: transcribe_fast_def call_fast_def Let_def)

lemma transcribe_fast_200:
  assumes "snd (transcribe_fast model req) = 200"
  shows "\<exists>m f segs info. model = Some m \<and> files req ''file'' = Some f \<and> filename f \<noteq> [] \<and>
           m (content f) (language_hint req) = Inr (segs, info)"
  using assms
  by (auto simp: transcribe_fast_def call_fast_def Let_def
           split: option.splits if_splits sum.splits prod.splits)

lemma example_filename: "ustr ''a.flac'' \<noteq> []"
  by (simp add: ustr_def)

lemma transcribe_simple_ok:
  assumes "files req ''file'' = Some f" and "filename f \<noteq> []"
    and "m (content f) (language_hint req) = Inr result"
    and "result ''text'' = Some (JStr t)"
  shows "transcribe_simple (Some m) req =
     (JObj [(''text'', JStr (strip t)),
            (''language'',
               (case result ''language'' of None \<Rightarrow> JStr (language_hint req) | Some v \<Rightarrow> v)),
            (''language_probability'', JNum 1)],
      200)"
  using assms by (simp add: transcribe_simple_def call_simple_def result_text_def Let_def)

lemma transcribe_simple_200:
  assumes "snd (transcribe_simple model req) = 200"
  shows "\<exists>m f result t. model = Some m \<and> files req ''file'' = Some f \<and> filename f \<noteq> [] \<and>
           m (content f) (language_hint req) = Inr result \<and> result ''text'' = Some (JStr t)"
  using assms
  by (auto simp: transcribe_simple_def call_simple_def result_text_def Let_def
           split: option.splits if_splits sum.splits json.splits)

lemma segment_loop_no_word_lists:
  assumes "\<forall>seg \<in> set segs. strip (text_attr seg) = [] \<and>
             (words_attr seg = NoAttribute \<or> words_attr seg = IsNone)"
  shows "segment_loop segs st = st"
  using assms
  by (induction segs arbitrary: st) (auto simp: segment_body_def)

lemma empty_result_without_word_lists:
  assumes "files req ''file'' = Some f" and "filename f \<noteq> []"
    and "m (content f) (language_hint req) = Inr (segs, info)"
    and "\<forall>seg \<in> set segs. strip (text_attr seg) = [] \<and>
             (words_attr seg = NoAttribute \<or> words_attr seg = IsNone)"
  shows "transcribe_fast (Some m) req =
     (JObj [(''text'', JStr []), (''language'', JStr (language info)),
            (''language_probability'', JNum (language_probability info)),
            (''words'', JArr []), (''total_duration'', JNum 0)], 200)"
proof -
  have "segment_loop segs ([], []) = ([], [])"
    using assms(4) by (rule segment_loop_no_word_lists)
  then have "full_text_of segs = []" "words_of segs = []"
    by (simp_all add: full_text_of_def words_of_def)
  then show ?thesis
    using transcribe_fast_ok [of req f m segs info] assms(1,2,3) by simp
qed

section \<open>The text when no empty part is appended\<close>

text \<open>
  Lines 120 and 123 are the only places where an empty string can become a part of the
  text. When no segment reaches them with an empty trimmed text (a segment with an empty
  trimmed text has no words attribute, or \<^verbatim>\<open>None\<close>, or a non-empty list of readable words),
  every part is trimmed and not empty, and so is the joined text unless there is no part at
  all.
\<close>

lemma last_dropWhile: "dropWhile P xs \<noteq> [] \<Longrightarrow> last (dropWhile P xs) = last xs"
  by (induction xs) (auto split: if_splits)

lemma strip_ends:
  assumes "strip s \<noteq> []"
  shows "\<not> isspace (hd (strip s)) \<and> \<not> isspace (last (strip s))"
proof -
  let ?ys = "dropWhile isspace s"
  let ?zs = "dropWhile isspace (rev ?ys)"
  from assms have z: "?zs \<noteq> []" by (simp add: strip_def)
  have y: "?ys \<noteq> []"
  proof
    assume a: "?ys = []"
    have "?zs = []" unfolding a by simp
    with z show False by simp
  qed
  have "last (strip s) = hd ?zs" using z by (simp add: strip_def last_rev)
  moreover have "\<not> isspace (hd ?zs)" using z by (rule hd_dropWhile)
  moreover have "hd (strip s) = last ?zs" using z by (simp add: strip_def hd_rev)
  moreover have "last ?zs = last (rev ?ys)" using z by (rule last_dropWhile)
  moreover have "last (rev ?ys) = hd ?ys" using y by (simp add: last_rev)
  moreover have "\<not> isspace (hd ?ys)" using y by (rule hd_dropWhile)
  ultimately show ?thesis by simp
qed

lemma join_ends:
  assumes "parts \<noteq> []" and "\<forall>p \<in> set parts. spec_trimmed p"
  shows "spec_trimmed (join sep parts)"
  using assms
proof (induction sep parts rule: join.induct)
  case (3 sep x y ys)
  then have "spec_trimmed (join sep (y # ys))" by simp
  with "3.prems" show ?case by (simp add: spec_trimmed_def)
qed simp_all

lemma word_loop_parts:
  assumes "\<forall>p \<in> set (snd st). spec_trimmed p"
  shows "\<forall>p \<in> set (snd (fst (word_loop ws st))). spec_trimmed p"
  using assms
  by (auto simp: word_loop_eq spec_accepted_def spec_trimmed_def strip_ends)

lemma segment_body_parts:
  assumes "strip (text_attr seg) = [] \<longrightarrow>
             words_attr seg = NoAttribute \<or> words_attr seg = IsNone \<or>
             (\<exists>ws. ws \<noteq> [] \<and> words_attr seg = Iterable (map Readable ws))"
    and "\<forall>p \<in> set (snd st). spec_trimmed p"
  shows "\<forall>p \<in> set (snd (segment_body seg st)). spec_trimmed p"
proof (cases "strip (text_attr seg) = []")
  case True
  with assms(1) consider "words_attr seg = NoAttribute" | "words_attr seg = IsNone"
    | ws where "ws \<noteq> []" "words_attr seg = Iterable (map Readable ws)"
    by blast
  then show ?thesis
  proof cases
    case 3
    have "snd (word_loop (map Readable ws) st) = None"
      by (rule word_loop_no_broken) auto
    then have "segment_body seg st = fst (word_loop (map Readable ws) st)"
      using 3 by (simp add: segment_body_def case_prod_beta)
    then show ?thesis using word_loop_parts [OF assms(2)] by simp
  qed (use True assms(2) in \<open>simp_all add: segment_body_def\<close>)
next
  case False
  then have t: "spec_trimmed (strip (text_attr seg))"
    by (simp add: spec_trimmed_def strip_ends)
  show ?thesis
  proof (cases "words_attr seg")
    case (Iterable ws)
    have "snd (segment_body seg st) = snd (fst (word_loop ws st)) \<or>
          snd (segment_body seg st) = snd (fst (word_loop ws st)) @ [strip (text_attr seg)] \<or>
          snd (segment_body seg st) = snd st @ [strip (text_attr seg)]"
      using Iterable by (simp add: segment_body_def Let_def case_prod_beta split: option.splits)
    then show ?thesis using t assms(2) word_loop_parts [OF assms(2), of ws] by auto
  qed (use False t assms(2) in \<open>simp_all add: segment_body_def Let_def\<close>)
qed

lemma segment_loop_parts:
  assumes "\<forall>seg \<in> set segs. strip (text_attr seg) = [] \<longrightarrow>
             words_attr seg = NoAttribute \<or> words_attr seg = IsNone \<or>
             (\<exists>ws. ws \<noteq> [] \<and> words_attr seg = Iterable (map Readable ws))"
    and "\<forall>p \<in> set (snd st). spec_trimmed p"
  shows "\<forall>p \<in> set (snd (segment_loop segs st)). spec_trimmed p"
  using assms
proof (induction segs arbitrary: st)
  case Nil
  then show ?case by simp
next
  case (Cons seg segs)
  have "\<forall>p \<in> set (snd (segment_body seg st)). spec_trimmed p"
    using Cons.prems by (intro segment_body_parts) simp_all
  moreover from Cons.prems(1) have "\<forall>seg \<in> set segs. strip (text_attr seg) = [] \<longrightarrow>
             words_attr seg = NoAttribute \<or> words_attr seg = IsNone \<or>
             (\<exists>ws. ws \<noteq> [] \<and> words_attr seg = Iterable (map Readable ws))" by simp
  ultimately show ?case using Cons.IH by simp
qed

lemma text_trimmed_without_empty_parts:
  assumes "\<forall>seg \<in> set segs. strip (text_attr seg) = [] \<longrightarrow>
             words_attr seg = NoAttribute \<or> words_attr seg = IsNone \<or>
             (\<exists>ws. ws \<noteq> [] \<and> words_attr seg = Iterable (map Readable ws))"
    and "full_text_of segs \<noteq> []"
  shows "\<not> isspace (hd (full_text_of segs)) \<and> \<not> isspace (last (full_text_of segs))"
proof -
  let ?parts = "snd (segment_loop segs ([], []))"
  have "\<forall>p \<in> set ?parts. spec_trimmed p"
    using segment_loop_parts [OF assms(1), of "([], [])"] by simp
  moreover from assms(2) have "?parts \<noteq> []" by (auto simp: full_text_of_def)
  ultimately have "spec_trimmed (full_text_of segs)"
    unfolding full_text_of_def by (intro join_ends)
  then show ?thesis by (simp add: spec_trimmed_def)
qed

section \<open>Order of the synthesized and of the extracted words\<close>

lemma sorted_spec_synthesize: "sorted (map start (spec_synthesize toks))"
  by (simp add: spec_synthesize_index sorted_iff_nth_mono divide_right_mono)

lemma sorted_spec_emit:
  assumes "sorted (map start ws)"
  shows "sorted (map start (map spec_emit ws))"
proof -
  have "start (spec_emit (ws ! i)) \<le> start (spec_emit (ws ! j))"
    if "i \<le> j" "j < length ws" for i j
  proof -
    from assms that have "map start ws ! i \<le> map start ws ! j"
      by (simp add: sorted_iff_nth_mono del: nth_map)
    with that have "start (ws ! i) \<le> start (ws ! j)" by simp
    then show ?thesis by (simp add: spec_emit_def round_py_mono)
  qed
  then show ?thesis by (simp add: sorted_iff_nth_mono)
qed

section \<open>The Fallback Synthesizer\<close>

text \<open>
  Claim C1. After the loop over all segments, the fallback runs if and only if the
  accumulated word list is empty and the full text is non-empty. It then emits exactly one
  word per whitespace-separated token of the full text, the token of index \<open>i\<close> with
  \<open>start = i * 0.5\<close>, \<open>end = (i + 1) * 0.5\<close> and probability \<open>0.75\<close>; in every other case, so
  whenever the extractor produced a word, the words are the extracted ones. (The test
  \<^verbatim>\<open>if word.strip()\<close> never drops a token and the two \<^verbatim>\<open>round\<close> calls change nothing.)
\<close>

theorem fallback_synthesizer:
  "words_of segs =
     (let words_data = fst (segment_loop segs ([], []));
          tokens = split (full_text_of segs)
      in if words_data = [] \<and> full_text_of segs \<noteq> []
         then map (\<lambda>i. \<lparr>word = tokens ! i, start = of_nat i * (1 / 2),
                          end_time = (of_nat i + 1) * (1 / 2), probability = 3 / 4\<rparr>)
                [0..<length tokens]
         else words_data)"
  by (simp add: words_of_eq fst_segment_loop spec_synthesize_index Let_def)

text \<open>
  The specification's second example (a segment \<^verbatim>\<open>"hello world"\<close> without words), and a
  segment with one real word, where the fallback stays out.
\<close>

theorem fallback_synthesizer_witness:
  "words_of [\<lparr>text_attr = ustr ''hello world'', words_attr = IsNone\<rparr>] =
     [\<lparr>word = ustr ''hello'', start = 0, end_time = 1 / 2, probability = 3 / 4\<rparr>,
      \<lparr>word = ustr ''world'', start = 1 / 2, end_time = 1, probability = 3 / 4\<rparr>]
   \<and> words_of [\<lparr>text_attr = ustr ''hello world'',
                 words_attr = Iterable [Readable \<lparr>word = ustr '' hi'', start = 0, end_time = 1,
                                         probability = 1\<rparr>]\<rparr>] =
     [\<lparr>word = ustr ''hi'', start = 0, end_time = 1, probability = 1\<rparr>]"
  using fallback_synthesizer [of "[\<lparr>text_attr = ustr ''hello world'', words_attr = IsNone\<rparr>]"]
    fallback_synthesizer [of "[\<lparr>text_attr = ustr ''hello world'',
                 words_attr = Iterable [Readable \<lparr>word = ustr '' hi'', start = 0, end_time = 1,
                                         probability = 1\<rparr>]\<rparr>]"]
  by (simp add: full_text_of_def segment_body_def strip_def ustr_def isspace_def split_def
      Let_def upt_rec round_py_def round_half_even_def)

section \<open>Segments whose words are all blank\<close>

text \<open>
  A word list that is not empty takes the loop of line 106, and the \<^verbatim>\<open>else\<close> of line 118 that
  appends the segment's text belongs to \<^verbatim>\<open>if words_list:\<close>. So a segment whose words are all
  blank adds no word and no text, whatever its text is.
\<close>

lemma blank_words_drop_segment_text:
  assumes "words_attr seg = Iterable (map Readable ws)" and "ws \<noteq> []"
    and "\<forall>w \<in> set ws. strip (word w) = []"
  shows "segment_body seg st = st"
proof -
  have "filter spec_accepted ws = []" using assms(3) by (simp add: spec_accepted_def)
  then have "fst (word_loop (map Readable ws) st) = st"
    by (simp add: word_loop_eq spec_read_readable)
  moreover have "snd (word_loop (map Readable ws) st) = None"
    by (rule word_loop_no_broken) auto
  ultimately show ?thesis
    using assms(1,2) by (simp add: segment_body_def case_prod_beta)
qed

text \<open>
  Claim C2 says that a segment whose word sequence is present but has no accepted word (in
  particular one whose only word is blank) adds no word and has its trimmed text appended
  to the full text as one unit. The paths of lines 120, 123 and 128 do append the text of a
  segment that gave no word; the path through the loop does not. For the one segment with
  the text \<^verbatim>\<open>"hello"\<close> and the single word \<^verbatim>\<open>"  "\<close> (the specification's fourth example) the
  handler answers 200 with an empty text and no words: the recognised text is lost.
\<close>

theorem blank_only_segment_loses_text:
  "transcribe_fast
     (returning
        [\<lparr>text_attr = ustr ''hello'',
          words_attr = Iterable [Readable \<lparr>word = ustr ''  '', start = 0, end_time = 1 / 10,
                                           probability = 1 / 2\<rparr>]\<rparr>])
     example_request =
     (JObj [(''text'', JStr []), (''language'', JStr (ustr ''en'')),
            (''language_probability'', JNum 1), (''words'', JArr []),
            (''total_duration'', JNum 0)], 200)
   \<and> strip (ustr ''hello'') = ustr ''hello''"
proof -
  have b: "segment_body
        \<lparr>text_attr = ustr ''hello'',
         words_attr = Iterable [Readable \<lparr>word = ustr ''  '', start = 0, end_time = 1 / 10,
                                          probability = 1 / 2\<rparr>]\<rparr> ([], []) = ([], [])"
    by (simp add: segment_body_def strip_def ustr_def isspace_def Let_def)
  have t: "full_text_of
        [\<lparr>text_attr = ustr ''hello'',
          words_attr = Iterable [Readable \<lparr>word = ustr ''  '', start = 0, end_time = 1 / 10,
                                           probability = 1 / 2\<rparr>]\<rparr>] = []"
    by (simp add: full_text_of_def b)
  have w: "words_of
        [\<lparr>text_attr = ustr ''hello'',
          words_attr = Iterable [Readable \<lparr>word = ustr ''  '', start = 0, end_time = 1 / 10,
                                           probability = 1 / 2\<rparr>]\<rparr>] = []"
    by (simp add: words_of_def t b)
  have s: "strip (ustr ''hello'') = ustr ''hello''"
    by (simp add: strip_def ustr_def isspace_def)
  show ?thesis
    by (simp add: transcribe_fast_def call_fast_def Let_def example_filename t w s)
qed

section \<open>A segment whose words cannot be read\<close>

text \<open>
  When \<^verbatim>\<open>list(segment.words)\<close> itself raises, the failure stays in that segment: the loop
  goes on with the word list it had and with the segment's trimmed text appended to the
  full-text parts, the segments after it are processed by the same loop, the word list is
  the one of the result without the failing segment, and the handler answers 200.
\<close>

lemma list_failure_is_local:
  assumes "words_attr seg = Unreadable e"
    and "files req ''file'' = Some f" and "filename f \<noteq> []"
    and "m (content f) (language_hint req) = Inr (before @ seg # after, info)"
  shows "segment_loop (before @ seg # after) st =
           segment_loop after
             (fst (segment_loop before st), snd (segment_loop before st) @ [strip (text_attr seg)])
         \<and> fst (segment_loop (before @ seg # after) st) = fst (segment_loop (before @ after) st)
         \<and> snd (transcribe_fast (Some m) req) = 200"
proof -
  have "segment_body seg (segment_loop before st) =
          (fst (segment_loop before st), snd (segment_loop before st) @ [strip (text_attr seg)])"
    using assms(1) by (simp add: segment_body_def Let_def)
  then have a: "segment_loop (before @ seg # after) st =
           segment_loop after
             (fst (segment_loop before st), snd (segment_loop before st) @ [strip (text_attr seg)])"
    by (simp add: segment_loop_append)
  have "spec_spans seg = []" using assms(1) by (simp add: spec_spans_def)
  then have b: "fst (segment_loop (before @ seg # after) st) = fst (segment_loop (before @ after) st)"
    by (simp add: fst_segment_loop spec_extract_def)
  have c: "snd (transcribe_fast (Some m) req) = 200"
    using transcribe_fast_ok [of req f m "before @ seg # after" info] assms(2,3,4) by simp
  from a b c show ?thesis by blast
qed

text \<open>
  When the exception comes from an element of the list, the words read before it are
  already in \<^verbatim>\<open>words_data\<close> and in the full-text parts; the handler of line 121 leaves them
  there and appends the segment's text as well. The segments after it are still processed.
\<close>

lemma word_failure_keeps_earlier_words:
  assumes "words_attr seg = Iterable (map Readable ws @ Broken e # rest)"
  shows "segment_body seg st =
           (fst st @ map spec_emit (filter spec_accepted ws),
            snd st @ map (\<lambda>w. strip (word w)) (filter spec_accepted ws) @ [strip (text_attr seg)])"
proof -
  have r: "spec_read (map Readable ws @ Broken e # rest) = ws"
    by (induction ws) simp_all
  have x: "snd (word_loop (map Readable ws @ Broken e # rest) st) = Some e" for st
    by (induction ws arbitrary: st) (simp_all add: Let_def)
  have "word_loop (map Readable ws @ Broken e # rest) st =
          ((fst st @ map spec_emit (filter spec_accepted ws),
            snd st @ map (\<lambda>w. strip (word w)) (filter spec_accepted ws)), Some e)"
    using word_loop_eq [of "map Readable ws @ Broken e # rest" st] x [of st]
    by (simp add: r prod_eq_iff)
  then show ?thesis using assms by (simp add: segment_body_def Let_def)
qed

text \<open>
  Claim C3 says that a failure while reading one segment's word sequence is handled
  locally, that the failing segment then counts as having no word-level data (no entry in
  the word list, only its trimmed text in the full text), and that the remaining segments
  are processed normally. For a segment with the text \<^verbatim>\<open>"x y"\<close> whose word list holds the word
  \<^verbatim>\<open>"x"\<close> and then an object that cannot be read, followed by a segment \<^verbatim>\<open>"z"\<close> without
  words, the handler answers 200 and processes the second segment, but the failing segment
  has left the word \<^verbatim>\<open>"x"\<close> in the word list and the text is \<^verbatim>\<open>"x x y z"\<close>, with the word
  counted twice.
\<close>

theorem word_read_failure_keeps_words:
  "transcribe_fast
     (returning
        [\<lparr>text_attr = ustr ''x y'',
          words_attr = Iterable
            [Readable \<lparr>word = ustr ''x'', start = 0, end_time = 1 / 2, probability = 9 / 10\<rparr>,
             Broken (AttributeError ''NoneType'' ''strip'')]\<rparr>,
         \<lparr>text_attr = ustr ''z'', words_attr = IsNone\<rparr>])
     example_request =
     (JObj [(''text'', JStr (ustr ''x x y z'')), (''language'', JStr (ustr ''en'')),
            (''language_probability'', JNum 1),
            (''words'',
               JArr [jsonify_word
                       \<lparr>word = ustr ''x'', start = 0, end_time = 1 / 2, probability = 9 / 10\<rparr>]),
            (''total_duration'', JNum (1 / 2))], 200)"
proof -
  have r: "round_py 0 2 = 0" "round_py (1 / 2) 2 = 1 / 2" "round_py (9 / 10) 3 = 9 / 10"
    by code_simp+
  have s: "strip (ustr ''x'') = ustr ''x''" "strip (ustr ''x y'') = ustr ''x y''"
    "strip (ustr ''z'') = ustr ''z''" "ustr ''x'' \<noteq> []" "ustr ''z'' \<noteq> []"
    by (simp_all add: strip_def ustr_def isspace_def)
  have b: "segment_loop
        [\<lparr>text_attr = ustr ''x y'',
          words_attr = Iterable
            [Readable \<lparr>word = ustr ''x'', start = 0, end_time = 1 / 2, probability = 9 / 10\<rparr>,
             Broken (AttributeError ''NoneType'' ''strip'')]\<rparr>,
         \<lparr>text_attr = ustr ''z'', words_attr = IsNone\<rparr>] ([], []) =
       ([\<lparr>word = ustr ''x'', start = 0, end_time = 1 / 2, probability = 9 / 10\<rparr>],
        [ustr ''x'', ustr ''x y'', ustr ''z''])"
    by (simp add: segment_body_def Let_def r s)
  have t: "full_text_of
        [\<lparr>text_attr = ustr ''x y'',
          words_attr = Iterable
            [Readable \<lparr>word = ustr ''x'', start = 0, end_time = 1 / 2, probability = 9 / 10\<rparr>,
             Broken (AttributeError ''NoneType'' ''strip'')]\<rparr>,
         \<lparr>text_attr = ustr ''z'', words_attr = IsNone\<rparr>] = ustr ''x x y z''"
    unfolding full_text_of_def b by (simp add: ustr_def)
  have w: "words_of
        [\<lparr>text_attr = ustr ''x y'',
          words_attr = Iterable
            [Readable \<lparr>word = ustr ''x'', start = 0, end_time = 1 / 2, probability = 9 / 10\<rparr>,
             Broken (AttributeError ''NoneType'' ''strip'')]\<rparr>,
         \<lparr>text_attr = ustr ''z'', words_attr = IsNone\<rparr>] =
       [\<lparr>word = ustr ''x'', start = 0, end_time = 1 / 2, probability = 9 / 10\<rparr>]"
    unfolding words_of_def b by simp
  show ?thesis
    by (simp add: transcribe_fast_def call_fast_def Let_def example_filename t w)
qed

section \<open>The Word Extractor\<close>

text \<open>
  Claim C4. When some segment of the backend's result has a word whose trimmed text is
  non-empty, the handler's word list is the list of all words of all readable segments, in
  the order of the input, without the words whose trimmed text is empty, each accepted
  word trimmed, its start and end rounded to 2 decimals and its probability to 3: the
  emitted times are whole hundredths and the emitted probability is whole thousandths.
  (The words of a segment are all the words of its list when every element can be read,
  \<open>spec_spans_readable\<close>.)
\<close>

theorem word_extractor:
  assumes "\<exists>seg \<in> set segs. \<exists>w \<in> set (spec_spans seg). spec_accepted w"
  shows "words_of segs = map spec_emit (filter spec_accepted (concat (map spec_spans segs)))
     \<and> (\<forall>w \<in> set (words_of segs).
          (\<exists>k. start w * 100 = of_int k) \<and> (\<exists>k. end_time w * 100 = of_int k) \<and>
          (\<exists>k. probability w * 1000 = of_int k))"
proof -
  from assms have "filter spec_accepted (concat (map spec_spans segs)) \<noteq> []"
    by (auto simp: filter_empty_conv)
  then have ne: "spec_extract segs \<noteq> []" by (simp add: spec_extract_def)
  then have eq: "words_of segs = map spec_emit (filter spec_accepted (concat (map spec_spans segs)))"
    by (simp add: words_of_eq spec_extract_def)
  have "(\<exists>k. start (spec_emit w) * 100 = of_int k) \<and>
        (\<exists>k. end_time (spec_emit w) * 100 = of_int k) \<and>
        (\<exists>k. probability (spec_emit w) * 1000 = of_int k)" for w
    using round_py_has_decimals by (simp add: spec_emit_def)
  then have "\<forall>w \<in> set (map spec_emit xs).
          (\<exists>k. start w * 100 = of_int k) \<and> (\<exists>k. end_time w * 100 = of_int k) \<and>
          (\<exists>k. probability w * 1000 = of_int k)" for xs
    by simp
  with eq show ?thesis by presburger
qed

theorem word_extractor_witness:
  "words_of
     [\<lparr>text_attr = ustr ''hello world'',
       words_attr = Iterable
         [Readable \<lparr>word = ustr '' hello'', start = 1 / 8, end_time = 2 / 5, probability = 4553 / 5000\<rparr>,
          Readable \<lparr>word = ustr ''  '', start = 2 / 5, end_time = 1 / 2, probability = 1 / 2\<rparr>,
          Readable \<lparr>word = ustr ''world '', start = 1 / 2, end_time = 7 / 10, probability = 22 / 25\<rparr>]\<rparr>]
   = [\<lparr>word = ustr ''hello'', start = 3 / 25, end_time = 2 / 5, probability = 911 / 1000\<rparr>,
      \<lparr>word = ustr ''world'', start = 1 / 2, end_time = 7 / 10, probability = 22 / 25\<rparr>]"
proof -
  have r: "round_py (1 / 8) 2 = 3 / 25" "round_py (2 / 5) 2 = 2 / 5"
    "round_py (4553 / 5000) 3 = 911 / 1000" "round_py (1 / 2) 2 = 1 / 2"
    "round_py (7 / 10) 2 = 7 / 10" "round_py (22 / 25) 3 = 22 / 25"
    by code_simp+
  show ?thesis
    using word_extractor
      [of "[\<lparr>text_attr = ustr ''hello world'',
       words_attr = Iterable
         [Readable \<lparr>word = ustr '' hello'', start = 1 / 8, end_time = 2 / 5, probability = 4553 / 5000\<rparr>,
          Readable \<lparr>word = ustr ''  '', start = 2 / 5, end_time = 1 / 2, probability = 1 / 2\<rparr>,
          Readable \<lparr>word = ustr ''world '', start = 1 / 2, end_time = 7 / 10, probability = 22 / 25\<rparr>]\<rparr>]"]
    by (simp add: spec_spans_def spec_accepted_def spec_emit_def strip_def ustr_def isspace_def r)
qed

section \<open>The total duration\<close>

text \<open>
  Claim C5. In every successful response of the fast handler, \<^verbatim>\<open>total_duration\<close> is the end
  time of the last element of \<^verbatim>\<open>words\<close> when \<^verbatim>\<open>words\<close> is not empty, and 0 when it is empty,
  whether the words were extracted or synthesized.
\<close>

theorem total_duration_is_last_end:
  assumes "snd (transcribe_fast model req) = 200"
  shows "\<exists>ws. field ''words'' (fst (transcribe_fast model req)) = Some (JArr (map jsonify_word ws))
           \<and> field ''total_duration'' (fst (transcribe_fast model req)) =
               Some (JNum (if ws = [] then 0 else end_time (last ws)))"
proof -
  from transcribe_fast_200 [OF assms] obtain m f segs info where
    h: "model = Some m" "files req ''file'' = Some f" "filename f \<noteq> []"
       "m (content f) (language_hint req) = Inr (segs, info)" by blast
  have "field ''words'' (fst (transcribe_fast model req)) = Some (JArr (map jsonify_word (words_of segs)))
      \<and> field ''total_duration'' (fst (transcribe_fast model req)) =
               Some (JNum (if words_of segs = [] then 0 else end_time (last (words_of segs))))"
    using transcribe_fast_ok [of req f m segs info] h by (simp add: field_def)
  then show ?thesis by blast
qed


theorem total_duration_is_last_end_witness:
  "snd (transcribe_fast (returning [\<lparr>text_attr = ustr ''hello world'', words_attr = IsNone\<rparr>])
          example_request) = 200
   \<and> field ''total_duration''
        (fst (transcribe_fast (returning [\<lparr>text_attr = ustr ''hello world'', words_attr = IsNone\<rparr>])
               example_request)) = Some (JNum 1)
   \<and> field ''total_duration'' (fst (transcribe_fast (returning []) example_request)) = Some (JNum 0)"
proof -
  have n: "ustr ''a.flac'' \<noteq> []" by (simp add: ustr_def)
  have s: "snd (transcribe_fast (returning [\<lparr>text_attr = ustr ''hello world'', words_attr = IsNone\<rparr>])
          example_request) = 200"
    by (simp add: transcribe_fast_def call_fast_def Let_def n)
  have w: "words_of [\<lparr>text_attr = ustr ''hello world'', words_attr = IsNone\<rparr>] =
     [\<lparr>word = ustr ''hello'', start = 0, end_time = 1 / 2, probability = 3 / 4\<rparr>,
      \<lparr>word = ustr ''world'', start = 1 / 2, end_time = 1, probability = 3 / 4\<rparr>]"
    by (simp add: words_of_eq spec_extract_def spec_spans_def spec_synthesize_def
        full_text_of_def segment_body_def strip_def ustr_def isspace_def split_def)
  have e: "words_of [] = []"
    by (simp add: words_of_eq spec_extract_def full_text_of_def)
  from total_duration_is_last_end [OF s] show ?thesis
    by (simp add: transcribe_fast_def call_fast_def Let_def w e field_def n)
qed

section \<open>The fields of a successful response\<close>

text \<open>
  The simple handler answers a file whose transcription is \<^verbatim>\<open>" hi "\<close> with status 200 and
  an object that has neither \<^verbatim>\<open>words\<close> nor \<^verbatim>\<open>total_duration\<close>.
\<close>

theorem simple_response_without_words_counterexample:
  "snd (transcribe_simple (simple_returning [''text'' \<mapsto> JStr (ustr '' hi '')]) example_request) = 200
   \<and> field ''words''
        (fst (transcribe_simple (simple_returning [''text'' \<mapsto> JStr (ustr '' hi '')])
               example_request)) = None
   \<and> field ''total_duration''
        (fst (transcribe_simple (simple_returning [''text'' \<mapsto> JStr (ustr '' hi '')])
               example_request)) = None"
  by (simp add: transcribe_simple_def call_simple_def result_text_def Let_def field_def
      example_filename)

text \<open>
  Claim C6, amended. Every successful response of the fast handler is a JSON object with
  the five fields \<^verbatim>\<open>text\<close>, \<^verbatim>\<open>language\<close>, \<^verbatim>\<open>language_probability\<close>, \<^verbatim>\<open>words\<close> (an array of
  objects with the keys \<^verbatim>\<open>word\<close>, \<^verbatim>\<open>start\<close>, \<^verbatim>\<open>end\<close>, \<^verbatim>\<open>probability\<close>) and \<^verbatim>\<open>total_duration\<close>.
  Every successful response of the simple handler is a JSON object with exactly the three
  fields \<^verbatim>\<open>text\<close>, \<^verbatim>\<open>language\<close> and \<^verbatim>\<open>language_probability\<close>, the last being 1.
\<close>

theorem response_fields:
  "(snd (transcribe_fast fast req) = 200 \<longrightarrow>
      (\<exists>t l p (ws::Word list) d. fst (transcribe_fast fast req) =
         JObj [(''text'', JStr t), (''language'', JStr l), (''language_probability'', JNum p),
               (''words'',
                  JArr (map (\<lambda>w. JObj [(''word'', JStr (word w)), (''start'', JNum (start w)),
                                          (''end'', JNum (end_time w)),
                                          (''probability'', JNum (probability w))]) ws)),
               (''total_duration'', JNum d)]))
   \<and> (snd (transcribe_simple simple req') = 200 \<longrightarrow>
      (\<exists>t l. fst (transcribe_simple simple req') =
         JObj [(''text'', JStr t), (''language'', l), (''language_probability'', JNum 1)]))"
proof (intro conjI impI)
  assume "snd (transcribe_fast fast req) = 200"
  from transcribe_fast_200 [OF this] obtain m f segs info where
    h: "fast = Some m" "files req ''file'' = Some f" "filename f \<noteq> []"
       "m (content f) (language_hint req) = Inr (segs, info)" by blast
  have eq: "fst (transcribe_fast fast req) =
     JObj [(''text'', JStr (full_text_of segs)), (''language'', JStr (language info)),
           (''language_probability'', JNum (language_probability info)),
           (''words'',
              JArr (map (\<lambda>w. JObj [(''word'', JStr (word w)), (''start'', JNum (start w)),
                                      (''end'', JNum (end_time w)),
                                      (''probability'', JNum (probability w))]) (words_of segs))),
           (''total_duration'',
              JNum (if words_of segs \<noteq> [] then end_time (last (words_of segs)) else 0))]"
    using transcribe_fast_ok [of req f m segs info] h by (simp add: jsonify_word_def)
  show "\<exists>t l p (ws::Word list) d. fst (transcribe_fast fast req) =
         JObj [(''text'', JStr t), (''language'', JStr l), (''language_probability'', JNum p),
               (''words'',
                  JArr (map (\<lambda>w. JObj [(''word'', JStr (word w)), (''start'', JNum (start w)),
                                          (''end'', JNum (end_time w)),
                                          (''probability'', JNum (probability w))]) ws)),
               (''total_duration'', JNum d)]"
    by (intro exI) (rule eq)
next
  assume "snd (transcribe_simple simple req') = 200"
  from transcribe_simple_200 [OF this] obtain m f result t where
    h: "simple = Some m" "files req' ''file'' = Some f" "filename f \<noteq> []"
       "m (content f) (language_hint req') = Inr result" "result ''text'' = Some (JStr t)"
    by blast
  show "\<exists>t l. fst (transcribe_simple simple req') =
         JObj [(''text'', JStr t), (''language'', l), (''language_probability'', JNum 1)]"
    using transcribe_simple_ok [of req' f m result t] h by simp
qed

theorem response_fields_witness:
  "snd (transcribe_fast (returning []) example_request) = 200
   \<and> fst (transcribe_fast (returning []) example_request) =
       JObj [(''text'', JStr []), (''language'', JStr (ustr ''en'')),
             (''language_probability'', JNum 1), (''words'', JArr []),
             (''total_duration'', JNum 0)]
   \<and> snd (transcribe_simple (simple_returning [''text'' \<mapsto> JStr (ustr '' hi '')]) example_request) = 200
   \<and> fst (transcribe_simple (simple_returning [''text'' \<mapsto> JStr (ustr '' hi '')]) example_request) =
       JObj [(''text'', JStr (ustr ''hi'')), (''language'', JStr (ustr ''ar'')),
             (''language_probability'', JNum 1)]"
proof -
  have e: "words_of [] = []" "full_text_of [] = []"
    by (simp_all add: words_of_eq spec_extract_def full_text_of_def)
  have s: "strip (ustr '' hi '') = ustr ''hi''"
    by (simp add: strip_def ustr_def isspace_def)
  show ?thesis
    using response_fields [of "returning []" example_request
        "simple_returning [''text'' \<mapsto> JStr (ustr '' hi '')]" example_request]
    by (simp add: transcribe_fast_def call_fast_def transcribe_simple_def call_simple_def
        result_text_def language_hint_def Let_def e s example_filename)
qed

section \<open>The assembled text\<close>

text \<open>
  Claim C7 says that the \<^verbatim>\<open>text\<close> field has no leading or trailing whitespace and no
  doubled separator. Lines 120 and 123 append the segment's trimmed text without the test
  \<^verbatim>\<open>if segment_text:\<close> that line 127 makes, so an empty string can become a part. For a
  segment with empty text and an empty word list followed by a segment \<^verbatim>\<open>"hi"\<close> without
  words, the handler answers 200 with the text \<^verbatim>\<open>" hi"\<close>, which starts with a space.
  Without such a segment the text is trimmed (\<open>text_trimmed_without_empty_parts\<close>).
\<close>

theorem text_untrimmed_at_failing_input:
  "snd (transcribe_fast
          (returning [\<lparr>text_attr = [], words_attr = Iterable []\<rparr>,
                      \<lparr>text_attr = ustr ''hi'', words_attr = IsNone\<rparr>])
          example_request) = 200
   \<and> field ''text''
        (fst (transcribe_fast
                (returning [\<lparr>text_attr = [], words_attr = Iterable []\<rparr>,
                            \<lparr>text_attr = ustr ''hi'', words_attr = IsNone\<rparr>])
                example_request)) = Some (JStr (ustr '' hi''))"
  by (simp add: transcribe_fast_def call_fast_def Let_def field_def ustr_def
      full_text_of_def segment_body_def strip_def isspace_def)

text \<open>
  Claim C8 says that a result with no segments, or with only segments of empty trimmed text
  and no words, gives the text \<^verbatim>\<open>""\<close>, no words and a duration of 0, with status 200. That
  holds for no segments and for segments whose words are missing or \<^verbatim>\<open>None\<close>
  (\<open>empty_result_without_word_lists\<close>). For two segments with empty text and the empty word
  list \<^verbatim>\<open>[]\<close>, the two empty parts of line 120 are joined to the text \<^verbatim>\<open>" "\<close>: the handler
  answers 200 with no words and duration 0, but with a text of one space.
\<close>

theorem empty_segments_text_at_failing_input:
  "snd (transcribe_fast
          (returning [\<lparr>text_attr = [], words_attr = Iterable []\<rparr>,
                      \<lparr>text_attr = [], words_attr = Iterable []\<rparr>])
          example_request) = 200
   \<and> fst (transcribe_fast
            (returning [\<lparr>text_attr = [], words_attr = Iterable []\<rparr>,
                        \<lparr>text_attr = [], words_attr = Iterable []\<rparr>])
            example_request) =
       JObj [(''text'', JStr (ustr '' '')), (''language'', JStr (ustr ''en'')),
             (''language_probability'', JNum 1), (''words'', JArr []),
             (''total_duration'', JNum 0)]"
proof -
  have t: "full_text_of [\<lparr>text_attr = [], words_attr = Iterable []\<rparr>,
                        \<lparr>text_attr = [], words_attr = Iterable []\<rparr>] = ustr '' ''"
    by (simp add: full_text_of_def segment_body_def strip_def)
  have w: "words_of [\<lparr>text_attr = [], words_attr = Iterable []\<rparr>,
                        \<lparr>text_attr = [], words_attr = Iterable []\<rparr>] = []"
    by (simp add: words_of_eq t spec_extract_def spec_spans_def spec_synthesize_def)
       (simp add: ustr_def split_def isspace_def)
  show ?thesis
    by (simp add: transcribe_fast_def call_fast_def Let_def example_filename t w)
qed

section \<open>Temporal order of the words\<close>

text \<open>
  The handler keeps the order of the backend's words and never sorts: a segment whose two
  words come with the start times 1 and 0 gives a word list that is not ordered.
\<close>

theorem words_out_of_order_counterexample:
  "\<not> sorted (map start (words_of
      [\<lparr>text_attr = ustr ''b a'',
        words_attr = Iterable
          [Readable \<lparr>word = ustr ''b'', start = 1, end_time = 2, probability = 1\<rparr>,
           Readable \<lparr>word = ustr ''a'', start = 0, end_time = 1, probability = 1\<rparr>]\<rparr>]))"
  by (simp add: words_of_eq spec_extract_def spec_spans_def spec_accepted_def spec_emit_def
      strip_def ustr_def isspace_def round_py_def round_half_even_def)

text \<open>
  Claim C9, amended. When the accepted words of the backend's result, in the order of the
  segments, have non-decreasing start times, the start times of the produced words are
  non-decreasing (rounding keeps the order); synthesized words are always in order.
\<close>

theorem words_temporally_ordered:
  assumes "sorted (map start (filter spec_accepted (concat (map spec_spans segs))))"
  shows "sorted (map start (words_of segs))"
  using assms
  by (simp add: words_of_eq spec_extract_def sorted_spec_synthesize sorted_spec_emit
           del: map_map)

theorem words_temporally_ordered_witness:
  "map start (words_of
      [\<lparr>text_attr = ustr ''a b'',
        words_attr = Iterable
          [Readable \<lparr>word = ustr ''a'', start = 0, end_time = 1, probability = 1\<rparr>,
           Readable \<lparr>word = ustr '' '', start = 5, end_time = 6, probability = 1\<rparr>,
           Readable \<lparr>word = ustr ''b'', start = 1, end_time = 2, probability = 1\<rparr>]\<rparr>]) = [0, 1]
   \<and> sorted (map start (words_of
      [\<lparr>text_attr = ustr ''a b'',
        words_attr = Iterable
          [Readable \<lparr>word = ustr ''a'', start = 0, end_time = 1, probability = 1\<rparr>,
           Readable \<lparr>word = ustr '' '', start = 5, end_time = 6, probability = 1\<rparr>,
           Readable \<lparr>word = ustr ''b'', start = 1, end_time = 2, probability = 1\<rparr>]\<rparr>]))"
proof -
  have pre: "sorted (map start (filter spec_accepted (concat (map spec_spans
      [\<lparr>text_attr = ustr ''a b'',
        words_attr = Iterable
          [Readable \<lparr>word = ustr ''a'', start = 0, end_time = 1, probability = 1\<rparr>,
           Readable \<lparr>word = ustr '' '', start = 5, end_time = 6, probability = 1\<rparr>,
           Readable \<lparr>word = ustr ''b'', start = 1, end_time = 2, probability = 1\<rparr>]\<rparr>]))))"
    by (simp add: spec_spans_def spec_accepted_def strip_def ustr_def isspace_def)
  have val: "map start (words_of
      [\<lparr>text_attr = ustr ''a b'',
        words_attr = Iterable
          [Readable \<lparr>word = ustr ''a'', start = 0, end_time = 1, probability = 1\<rparr>,
           Readable \<lparr>word = ustr '' '', start = 5, end_time = 6, probability = 1\<rparr>,
           Readable \<lparr>word = ustr ''b'', start = 1, end_time = 2, probability = 1\<rparr>]\<rparr>]) = [0, 1]"
    by (simp add: words_of_eq spec_extract_def spec_spans_def spec_accepted_def spec_emit_def
      strip_def ustr_def isspace_def round_py_def round_half_even_def)
  from words_temporally_ordered [OF pre] val show ?thesis by simp
qed

section \<open>The language of the simple handler\<close>

text \<open>
  Claim C10. When the simple backend's result dictionary has no key \<^verbatim>\<open>language\<close>, the
  successful response's \<^verbatim>\<open>language\<close> field is the request's language hint: the query
  parameter \<^verbatim>\<open>language\<close>, or \<^verbatim>\<open>"ar"\<close> when the request has none.
\<close>

theorem simple_language_defaults_to_hint:
  assumes "files req ''file'' = Some f" and "filename f \<noteq> []"
    and "m (content f) (language_hint req) = Inr result"
    and "result ''text'' = Some (JStr t)"
    and "result ''language'' = None"
  shows "snd (transcribe_simple (Some m) req) = 200
     \<and> field ''language'' (fst (transcribe_simple (Some m) req)) =
         Some (JStr (case args req ''language'' of None \<Rightarrow> ustr ''ar'' | Some l \<Rightarrow> l))"
  using transcribe_simple_ok [of req f m result t] assms
  by (simp add: field_def language_hint_def)

theorem simple_language_defaults_to_hint_witness:
  "field ''language''
     (fst (transcribe_simple (simple_returning [''text'' \<mapsto> JStr (ustr '' hi '')]) example_request))
     = Some (JStr (ustr ''ar''))
   \<and> field ''language''
     (fst (transcribe_simple (simple_returning [''text'' \<mapsto> JStr (ustr '' hi '')])
        \<lparr>files = [''file'' \<mapsto> \<lparr>filename = ustr ''a.wav'', content = []\<rparr>],
         args = [''language'' \<mapsto> ustr ''fr'']\<rparr>))
     = Some (JStr (ustr ''fr''))"
  using simple_language_defaults_to_hint
      [of example_request "\<lparr>filename = ustr ''a.flac'', content = []\<rparr>"
          "\<lambda>audio lang. Inr [''text'' \<mapsto> JStr (ustr '' hi '')]"
          "[''text'' \<mapsto> JStr (ustr '' hi '')]" "ustr '' hi ''"]
    simple_language_defaults_to_hint
      [of "\<lparr>files = [''file'' \<mapsto> \<lparr>filename = ustr ''a.wav'', content = []\<rparr>],
         args = [''language'' \<mapsto> ustr ''fr'']\<rparr>" "\<lparr>filename = ustr ''a.wav'', content = []\<rparr>"
          "\<lambda>audio lang. Inr [''text'' \<mapsto> JStr (ustr '' hi '')]"
          "[''text'' \<mapsto> JStr (ustr '' hi '')]" "ustr '' hi ''"]
  by (simp add: ustr_def)

end
